theory Spec2Isabelle
  imports Main "HOL-Library.Word"
begin

section \<open>Python values and exceptions\<close>

text \<open>A \<open>bytes\<close> object is a list of 8-bit words, a Python \<open>int\<close> an \<open>int\<close>, a Python
  \<open>str\<close> the list of its Unicode code points. The exceptions that the modelled code lets
  escape are the values of \<open>py_error\<close>; a function that can raise returns \<open>py_error + 'a\<close>.
  (\<open>UnicodeEncodeError\<close> and \<open>UnicodeDecodeError\<close> are raised by the codecs,
  \<open>struct_error\<close> by \<open>struct.pack\<close> and \<open>struct.unpack\<close>, \<open>IndexError\<close> by \<open>list.pop\<close>;
  \<open>ValueError\<close> and \<open>ConnectionError\<close> are the ones the repository raises itself.)\<close>

type_synonym byte = "8 word"

type_synonym str = "nat list"

datatype py_error =
    ValueError
  | UnicodeEncodeError
  | UnicodeDecodeError
  | struct_error
  | ConnectionError
  | IndexError

definition py_str :: "string \<Rightarrow> str" where
  "py_str lit = map of_char lit"

subsection \<open>The \<open>utf-8\<close> and \<open>ascii\<close> codecs\<close>

text \<open>\<open>str.encode("utf-8")\<close>: one to four bytes per code point; a surrogate code point
  (and a number that is no code point at all) is refused.\<close>

definition utf8_encode_cp :: "nat \<Rightarrow> py_error + nat list" where
  "utf8_encode_cp c =
     (if c < 0x80 then Inr [c]
      else if c < 0x800 then Inr [0xC0 + c div 0x40, 0x80 + c mod 0x40]
      else if 0xD800 \<le> c \<and> c \<le> 0xDFFF then Inl UnicodeEncodeError
      else if c < 0x10000 then
        Inr [0xE0 + c div 0x1000, 0x80 + c div 0x40 mod 0x40, 0x80 + c mod 0x40]
      else if c < 0x110000 then
        Inr [0xF0 + c div 0x40000, 0x80 + c div 0x1000 mod 0x40, 0x80 + c div 0x40 mod 0x40,
             0x80 + c mod 0x40]
      else Inl UnicodeEncodeError)"

fun utf8_encode_nat :: "str \<Rightarrow> py_error + nat list" where
  "utf8_encode_nat [] = Inr []"
| "utf8_encode_nat (c # cs) =
     (case utf8_encode_cp c of
        Inl e \<Rightarrow> Inl e
      | Inr bs \<Rightarrow> (case utf8_encode_nat cs of Inl e \<Rightarrow> Inl e | Inr rest \<Rightarrow> Inr (bs @ rest)))"

definition utf8_encode :: "str \<Rightarrow> py_error + byte list" where
  "utf8_encode s = (case utf8_encode_nat s of Inl e \<Rightarrow> Inl e | Inr bs \<Rightarrow> Inr (map of_nat bs))"

text \<open>\<open>bytes.decode("utf-8")\<close>, strict: the well-formed byte sequences are those of the
  Unicode standard (no overlong form, no surrogate, nothing above U+10FFFF); anything else
  raises \<open>UnicodeDecodeError\<close>. \<open>utf8_decode_cp\<close> reads one code point and returns it with
  the bytes that follow.\<close>

definition is_cont :: "nat \<Rightarrow> bool" where
  "is_cont b = (0x80 \<le> b \<and> b \<le> 0xBF)"

definition utf8_decode_cp :: "nat list \<Rightarrow> (nat \<times> nat list) option" where
  "utf8_decode_cp bs =
     (case bs of
        [] \<Rightarrow> None
      | b0 # r0 \<Rightarrow>
          if b0 < 0x80 then Some (b0, r0)
          else if 0xC2 \<le> b0 \<and> b0 \<le> 0xDF then
            (case r0 of
               b1 # r1 \<Rightarrow>
                 if is_cont b1 then Some ((b0 - 0xC0) * 0x40 + (b1 - 0x80), r1) else None
             | _ \<Rightarrow> None)
          else if 0xE0 \<le> b0 \<and> b0 \<le> 0xEF then
            (case r0 of
               b1 # b2 # r2 \<Rightarrow>
                 if (if b0 = 0xE0 then 0xA0 \<le> b1 \<and> b1 \<le> 0xBF
                     else if b0 = 0xED then 0x80 \<le> b1 \<and> b1 \<le> 0x9F
                     else is_cont b1) \<and> is_cont b2
                 then Some ((b0 - 0xE0) * 0x1000 + (b1 - 0x80) * 0x40 + (b2 - 0x80), r2)
                 else None
             | _ \<Rightarrow> None)
          else if 0xF0 \<le> b0 \<and> b0 \<le> 0xF4 then
            (case r0 of
               b1 # b2 # b3 # r3 \<Rightarrow>
                 if (if b0 = 0xF0 then 0x90 \<le> b1 \<and> b1 \<le> 0xBF
                     else if b0 = 0xF4 then 0x80 \<le> b1 \<and> b1 \<le> 0x8F
                     else is_cont b1) \<and> is_cont b2 \<and> is_cont b3
                 then Some ((b0 - 0xF0) * 0x40000 + (b1 - 0x80) * 0x1000 + (b2 - 0x80) * 0x40
                            + (b3 - 0x80), r3)
                 else None
             | _ \<Rightarrow> None)
          else None)"

lemma utf8_decode_cp_shorter: "utf8_decode_cp bs = Some (c, r) \<Longrightarrow> length r < length bs"
  by (auto simp: utf8_decode_cp_def split: list.splits if_splits)

function utf8_decode_nat :: "nat list \<Rightarrow> py_error + str" where
  "utf8_decode_nat bs =
     (if bs = [] then Inr []
      else (case utf8_decode_cp bs of
              None \<Rightarrow> Inl UnicodeDecodeError
            | Some (c, r) \<Rightarrow>
                (case utf8_decode_nat r of Inl e \<Rightarrow> Inl e | Inr cs \<Rightarrow> Inr (c # cs))))"
  by pat_completeness auto
termination
  by (relation "measure length") (auto dest: utf8_decode_cp_shorter)

declare utf8_decode_nat.simps [simp del]

definition utf8_decode :: "byte list \<Rightarrow> py_error + str" where
  "utf8_decode bs = utf8_decode_nat (map unat bs)"

text \<open>\<open>str.encode("ascii")\<close> and \<open>bytes.decode("ascii")\<close>: code points and bytes below 128
  only.\<close>

fun ascii_encode :: "str \<Rightarrow> py_error + byte list" where
  "ascii_encode [] = Inr []"
| "ascii_encode (c # cs) =
     (if c < 128 then (case ascii_encode cs of Inl e \<Rightarrow> Inl e | Inr bs \<Rightarrow> Inr (of_nat c # bs))
      else Inl UnicodeEncodeError)"

fun ascii_decode :: "byte list \<Rightarrow> py_error + str" where
  "ascii_decode [] = Inr []"
| "ascii_decode (b # bs) =
     (if unat b < 128 then (case ascii_decode bs of Inl e \<Rightarrow> Inl e | Inr cs \<Rightarrow> Inr (unat b # cs))
      else Inl UnicodeDecodeError)"

subsection \<open>\<open>struct.pack\<close> and \<open>struct.unpack\<close> in network byte order\<close>

text \<open>An unsigned field of \<open>w\<close> bytes (\<open>B\<close>: 1, \<open>H\<close>: 2, \<open>I\<close>: 4) is big-endian;
  \<open>struct.pack\<close> raises \<open>struct.error\<close> on a value out of the field's range. An \<open>ns\<close>
  field takes the first \<open>n\<close> bytes of its argument and pads with zero bytes.
  \<open>struct.unpack\<close> raises \<open>struct.error\<close> unless the buffer has exactly the size of the
  format.\<close>

fun be_bytes :: "nat \<Rightarrow> int \<Rightarrow> byte list" where
  "be_bytes 0 v = []"
| "be_bytes (Suc w) v = be_bytes w (v div 256) @ [word_of_int (v mod 256)]"

definition pack_uint :: "nat \<Rightarrow> int \<Rightarrow> py_error + byte list" where
  "pack_uint w v = (if 0 \<le> v \<and> v < 256 ^ w then Inr (be_bytes w v) else Inl struct_error)"

fun pack_uints :: "(nat \<times> int) list \<Rightarrow> py_error + byte list" where
  "pack_uints [] = Inr []"
| "pack_uints ((w, v) # fields) =
     (case pack_uint w v of
        Inl e \<Rightarrow> Inl e
      | Inr bs \<Rightarrow> (case pack_uints fields of Inl e \<Rightarrow> Inl e | Inr rest \<Rightarrow> Inr (bs @ rest)))"

definition pack_s :: "nat \<Rightarrow> byte list \<Rightarrow> byte list" where
  "pack_s n bs = take n bs @ replicate (n - length bs) 0"

definition unpack_uint :: "byte list \<Rightarrow> int" where
  "unpack_uint bs = foldl (\<lambda>acc b. acc * 256 + uint b) 0 bs"

definition field :: "nat \<Rightarrow> nat \<Rightarrow> byte list \<Rightarrow> byte list" where
  "field offset n data = take n (drop offset data)"

section \<open>Wire codec (protocol.py)\<close>

definition MAGIC_COOKIE :: int where "MAGIC_COOKIE = 0xabcddcba"

definition MTYPE_OFFER :: int where "MTYPE_OFFER = 0x2"
definition MTYPE_REQUEST :: int where "MTYPE_REQUEST = 0x3"
definition MTYPE_PAYLOAD :: int where "MTYPE_PAYLOAD = 0x4"

definition GAME_RESULT_NOTOVER :: int where "GAME_RESULT_NOTOVER = 0x0"
definition GAME_RESULT_TIE :: int where "GAME_RESULT_TIE = 0x1"
definition GAME_RESULT_LOSS :: int where "GAME_RESULT_LOSS = 0x2"
definition GAME_RESULT_WIN :: int where "GAME_RESULT_WIN = 0x3"

definition NAME_LEN :: nat where "NAME_LEN = 32"

text \<open>The sizes \<open>struct.calcsize\<close> gives for the four formats:
  \<open>"!I B H 32s"\<close>, \<open>"!I B B 32s"\<close>, \<open>"!I B 5s"\<close> and \<open>"!I B B H B"\<close>.\<close>

definition OFFER_SIZE :: nat where "OFFER_SIZE = 4 + 1 + 2 + NAME_LEN"
definition REQUEST_SIZE :: nat where "REQUEST_SIZE = 4 + 1 + 1 + NAME_LEN"
definition CLIENT_PAYLOAD_SIZE :: nat where "CLIENT_PAYLOAD_SIZE = 4 + 1 + 5"
definition SERVER_PAYLOAD_SIZE :: nat where "SERVER_PAYLOAD_SIZE = 4 + 1 + 1 + 2 + 1"

definition pack_name :: "str \<Rightarrow> py_error + byte list" where
  "pack_name name =
     (case utf8_encode name of
        Inl e \<Rightarrow> Inl e
      | Inr encoded \<Rightarrow>
          let bytes_name = take NAME_LEN encoded
          in Inr (bytes_name @ replicate (NAME_LEN - length bytes_name) 0))"

definition unpack_name :: "byte list \<Rightarrow> py_error + str" where
  "unpack_name bytes_name = utf8_decode (takeWhile (\<lambda>b. b \<noteq> 0) bytes_name)"

definition pack_offer :: "int \<Rightarrow> str \<Rightarrow> py_error + byte list" where
  "pack_offer tcp_port server_name =
     (case pack_name server_name of
        Inl e \<Rightarrow> Inl e
      | Inr nm \<Rightarrow>
          (case pack_uints [(4, MAGIC_COOKIE), (1, MTYPE_OFFER), (2, tcp_port)] of
             Inl e \<Rightarrow> Inl e
           | Inr header \<Rightarrow> Inr (header @ pack_s NAME_LEN nm)))"

definition unpack_offer :: "byte list \<Rightarrow> py_error + (int \<times> int \<times> int \<times> str)" where
  "unpack_offer data =
     (if length data \<noteq> OFFER_SIZE then Inl struct_error
      else (case unpack_name (field 7 NAME_LEN data) of
              Inl e \<Rightarrow> Inl e
            | Inr server_name \<Rightarrow>
                Inr (unpack_uint (field 0 4 data), unpack_uint (field 4 1 data),
                     unpack_uint (field 5 2 data), server_name)))"

definition pack_request :: "int \<Rightarrow> str \<Rightarrow> py_error + byte list" where
  "pack_request rounds client_name =
     (if \<not> (0 \<le> rounds \<and> rounds \<le> 255) then Inl ValueError
      else (case pack_name client_name of
              Inl e \<Rightarrow> Inl e
            | Inr nm \<Rightarrow>
                (case pack_uints [(4, MAGIC_COOKIE), (1, MTYPE_REQUEST), (1, rounds)] of
                   Inl e \<Rightarrow> Inl e
                 | Inr header \<Rightarrow> Inr (header @ pack_s NAME_LEN nm))))"

definition unpack_request :: "byte list \<Rightarrow> py_error + (int \<times> int \<times> int \<times> str)" where
  "unpack_request data =
     (if length data \<noteq> REQUEST_SIZE then Inl struct_error
      else (case unpack_name (field 6 NAME_LEN data) of
              Inl e \<Rightarrow> Inl e
            | Inr client_name \<Rightarrow>
                Inr (unpack_uint (field 0 4 data), unpack_uint (field 4 1 data),
                     unpack_uint (field 5 1 data), client_name)))"

definition pack_client_payload :: "str \<Rightarrow> py_error + byte list" where
  "pack_client_payload decision =
     (if decision \<notin> set [py_str ''Hittt'', py_str ''Stand''] then Inl ValueError
      else (case ascii_encode decision of
              Inl e \<Rightarrow> Inl e
            | Inr token \<Rightarrow>
                (case pack_uints [(4, MAGIC_COOKIE), (1, MTYPE_PAYLOAD)] of
                   Inl e \<Rightarrow> Inl e
                 | Inr header \<Rightarrow> Inr (header @ pack_s 5 token))))"

definition unpack_client_payload :: "byte list \<Rightarrow> py_error + (int \<times> int \<times> str)" where
  "unpack_client_payload data =
     (if length data \<noteq> CLIENT_PAYLOAD_SIZE then Inl struct_error
      else (case ascii_decode (field 5 5 data) of
              Inl e \<Rightarrow> Inl e
            | Inr decision \<Rightarrow>
                Inr (unpack_uint (field 0 4 data), unpack_uint (field 4 1 data), decision)))"

definition pack_server_payload :: "int \<Rightarrow> int \<Rightarrow> int \<Rightarrow> py_error + byte list" where
  "pack_server_payload game_result card_rank card_suit =
     pack_uints [(4, MAGIC_COOKIE), (1, MTYPE_PAYLOAD), (1, game_result), (2, card_rank),
                 (1, card_suit)]"

definition unpack_server_payload :: "byte list \<Rightarrow> py_error + (int \<times> int \<times> int \<times> int \<times> int)" where
  "unpack_server_payload data =
     (if length data \<noteq> SERVER_PAYLOAD_SIZE then Inl struct_error
      else Inr (unpack_uint (field 0 4 data), unpack_uint (field 4 1 data),
                unpack_uint (field 5 1 data), unpack_uint (field 6 2 data),
                unpack_uint (field 8 1 data)))"

section \<open>Deck and hand engine (server.py, client.py)\<close>

text \<open>A card is the tuple \<open>(rank, suit)\<close> of Python integers.\<close>

type_synonym card = "int \<times> int"

text \<open>server.py, \<open>create_deck\<close>: the outer loop runs over \<open>range(4)\<close>, the inner one over
  \<open>range(1, 14)\<close>, each appending \<open>(card_rank, card_suit)\<close>.\<close>

definition create_deck :: "card list" where
  "create_deck = concat (map (\<lambda>card_suit. map (\<lambda>card_rank. (card_rank, card_suit)) [1..13]) [0..3])"

text \<open>Python's \<open>list.pop()\<close>, the draw used at every draw site: it removes and returns the
  last element and raises \<open>IndexError\<close> on an empty list.\<close>

definition deck_pop :: "card list \<Rightarrow> py_error + (card \<times> card list)" where
  "deck_pop deck = (if deck = [] then Inl IndexError else Inr (last deck, butlast deck))"

text \<open>server.py, \<open>rank_value\<close>.\<close>

definition rank_value :: "int \<Rightarrow> int" where
  "rank_value rank = (if rank \<ge> 11 then 10 else if rank = 1 then 11 else rank)"

text \<open>server.py, \<open>hand_total\<close>: the accumulating loop over the hand.\<close>

definition hand_total :: "card list \<Rightarrow> int" where
  "hand_total hand = foldl (\<lambda>total (rank, suit). total + rank_value rank) 0 hand"

text \<open>client.py, \<open>rank_value\<close> and \<open>hand_total\<close>: the client's total is \<open>sum(ranks)\<close> over
  a list that already holds point values.\<close>

definition client_rank_value :: "int \<Rightarrow> int" where
  "client_rank_value rank = (if rank \<ge> 11 then 10 else if rank = 1 then 11 else rank)"

definition client_hand_total :: "int list \<Rightarrow> int" where
  "client_hand_total ranks = sum_list ranks"

text \<open>client.py, \<open>main\<close>: \<open>player_ranks\<close> starts empty and gets
  \<open>rank_value(card_rank)\<close> appended for each player card received.\<close>

definition client_player_ranks :: "card list \<Rightarrow> int list" where
  "client_player_ranks cards =
     foldl (\<lambda>player_ranks (card_rank, card_suit). player_ranks @ [client_rank_value card_rank]) [] cards"

text \<open>server.py, \<open>who_won\<close>.\<close>

definition who_won :: "card list \<Rightarrow> card list \<Rightarrow> bool \<Rightarrow> bool \<Rightarrow> int" where
  "who_won player_hand dealer_hand player_busted dealer_busted =
     (if player_busted then GAME_RESULT_LOSS
      else if dealer_busted then GAME_RESULT_WIN
      else let player_score = hand_total player_hand;
               dealer_score = hand_total dealer_hand
           in if player_score > dealer_score then GAME_RESULT_WIN
              else if player_score < dealer_score then GAME_RESULT_LOSS
              else GAME_RESULT_TIE)"


section \<open>The stream socket\<close>

text \<open>The connected socket, as the session sees it. \<open>inbox\<close> is what the peer's byte
  stream delivers: the segments that the successive \<open>recv\<close> calls find waiting, in order;
  when none is left the peer has closed the stream, and \<open>recv\<close> returns \<open>b""\<close>.
  \<open>outbox\<close> lists the byte strings handed to \<open>sendall\<close>. (A peer that neither sends nor
  closes, and a send that fails in the operating system, are outside this model.)\<close>

record sock =
  inbox :: "byte list list"
  outbox :: "byte list list"

text \<open>\<open>sock.recv(bufsize)\<close> returns at most \<open>bufsize\<close> bytes of the waiting segment and
  leaves the rest of it waiting.\<close>

definition sock_recv :: "sock \<Rightarrow> nat \<Rightarrow> byte list \<times> sock" where
  "sock_recv s bufsize =
     (case inbox s of
        [] \<Rightarrow> ([], s)
      | seg # rest \<Rightarrow>
          (take bufsize seg,
           s\<lparr>inbox := (if drop bufsize seg = [] then rest else drop bufsize seg # rest)\<rparr>))"

definition sendall :: "sock \<Rightarrow> byte list \<Rightarrow> sock" where
  "sendall s msg = s\<lparr>outbox := outbox s @ [msg]\<rparr>"

text \<open>server.py, \<open>recv_exact\<close>: the \<open>while len(data) < n\<close> loop, with \<open>data\<close> as the
  accumulator.\<close>

function recv_exact_loop :: "sock \<Rightarrow> int \<Rightarrow> byte list \<Rightarrow> py_error + (byte list \<times> sock)" where
  "recv_exact_loop s n data =
     (if int (length data) < n then
        (let r = sock_recv s (nat (n - int (length data)))
         in if fst r = [] then Inl ConnectionError
            else recv_exact_loop (snd r) n (data @ fst r))
      else Inr (data, s))"
  by pat_completeness auto
termination
  by (relation "measure (\<lambda>(s, n, data). nat (n - int (length data)))") auto

declare recv_exact_loop.simps [simp del]

definition recv_exact :: "sock \<Rightarrow> int \<Rightarrow> py_error + (byte list \<times> sock)" where
  "recv_exact s n = recv_exact_loop s n []"

text \<open>client.py, \<open>recv_exact\<close>: the client's own copy of the same function.\<close>

function client_recv_exact_loop :: "sock \<Rightarrow> int \<Rightarrow> byte list \<Rightarrow> py_error + (byte list \<times> sock)" where
  "client_recv_exact_loop s n data =
     (if int (length data) < n then
        (let r = sock_recv s (nat (n - int (length data)))
         in if fst r = [] then Inl ConnectionError
            else client_recv_exact_loop (snd r) n (data @ fst r))
      else Inr (data, s))"
  by pat_completeness auto
termination
  by (relation "measure (\<lambda>(s, n, data). nat (n - int (length data)))") auto

declare client_recv_exact_loop.simps [simp del]

definition client_recv_exact :: "sock \<Rightarrow> int \<Rightarrow> py_error + (byte list \<times> sock)" where
  "client_recv_exact s n = client_recv_exact_loop s n []"

section \<open>Session state machine, server role (server.py)\<close>

text \<open>The draw that \<open>initial_deal\<close>, \<open>player_turn\<close> and \<open>dealer_turn\<close> each spell out:
  \<open>card = deck.pop()\<close>, then the card is sent as a NOTOVER payload. It returns the card,
  the deck and the socket after it.\<close>

definition draw_and_send :: "card list \<Rightarrow> sock \<Rightarrow> py_error + (card \<times> card list \<times> sock)" where
  "draw_and_send deck client_sock =
     (case deck_pop deck of
        Inl e \<Rightarrow> Inl e
      | Inr (new_card, deck') \<Rightarrow>
          (case pack_server_payload GAME_RESULT_NOTOVER (fst new_card) (snd new_card) of
             Inl e \<Rightarrow> Inl e
           | Inr msg \<Rightarrow> Inr (new_card, deck', sendall client_sock msg)))"

text \<open>server.py, \<open>initial_deal\<close>: two player cards and the dealer's upcard, each sent, then
  the hidden card, not sent. Returns \<open>(player_hand, dealer_hand, dealer_hidden)\<close> with the
  deck and the socket after the deal.\<close>

definition initial_deal ::
  "card list \<Rightarrow> sock \<Rightarrow> py_error + (card list \<times> card list \<times> card \<times> card list \<times> sock)" where
  "initial_deal deck client_sock =
     (case draw_and_send deck client_sock of
        Inl e \<Rightarrow> Inl e
      | Inr (card1, deck1, sock1) \<Rightarrow>
     (case draw_and_send deck1 sock1 of
        Inl e \<Rightarrow> Inl e
      | Inr (card2, deck2, sock2) \<Rightarrow>
     (case draw_and_send deck2 sock2 of
        Inl e \<Rightarrow> Inl e
      | Inr (dealer_first_card, deck3, sock3) \<Rightarrow>
     (case deck_pop deck3 of
        Inl e \<Rightarrow> Inl e
      | Inr (dealer_hidden, deck4) \<Rightarrow>
          Inr ([card1, card2], [dealer_first_card], dealer_hidden, deck4, sock3)))))"

lemma draw_and_send_shorter:
  "draw_and_send deck client_sock = Inr (new_card, deck', sock') \<Longrightarrow> length deck' < length deck"
  by (auto simp: draw_and_send_def deck_pop_def split: if_splits sum.splits)

text \<open>server.py, \<open>player_turn\<close>: the \<open>while True\<close> loop. Returns \<open>player_busted\<close> with the
  deck, the player's hand and the socket as the loop leaves them.\<close>

function player_turn ::
  "sock \<Rightarrow> card list \<Rightarrow> card list \<Rightarrow> py_error + (bool \<times> card list \<times> card list \<times> sock)" where
  "player_turn client_sock deck player_hand =
     (if hand_total player_hand > 21 then Inr (True, deck, player_hand, client_sock)
      else
        (case recv_exact client_sock (int CLIENT_PAYLOAD_SIZE) of
           Inl e \<Rightarrow> Inl e
         | Inr (data, sock1) \<Rightarrow>
             (case unpack_client_payload data of
                Inl e \<Rightarrow> Inl e
              | Inr (cookie, msg_type, decision) \<Rightarrow>
                  if cookie \<noteq> MAGIC_COOKIE then Inl ValueError
                  else if decision = py_str ''Hittt'' then
                    (case draw_and_send deck sock1 of
                       Inl e \<Rightarrow> Inl e
                     | Inr (new_card, deck', sock2) \<Rightarrow>
                         player_turn sock2 deck' (player_hand @ [new_card]))
                  else if decision = py_str ''Stand'' then Inr (False, deck, player_hand, sock1)
                  else Inl ValueError)))"
  by pat_completeness auto
termination
  by (relation "measure (\<lambda>(client_sock, deck, player_hand). length deck)")
     (auto dest: draw_and_send_shorter)

declare player_turn.simps [simp del]

text \<open>server.py, \<open>dealer_turn\<close>: the hidden card is appended and sent, then the
  \<open>while True\<close> loop (\<open>dealer_loop\<close>) runs. Returns \<open>dealer_busted\<close> with the deck, the
  dealer's hand and the socket as the loop leaves them.\<close>

function dealer_loop ::
  "sock \<Rightarrow> card list \<Rightarrow> card list \<Rightarrow> py_error + (bool \<times> card list \<times> card list \<times> sock)" where
  "dealer_loop client_sock deck dealer_hand =
     (let dealer_score = hand_total dealer_hand
      in if dealer_score > 21 then Inr (True, deck, dealer_hand, client_sock)
         else if dealer_score \<ge> 17 then Inr (False, deck, dealer_hand, client_sock)
         else (case draw_and_send deck client_sock of
                 Inl e \<Rightarrow> Inl e
               | Inr (new_card, deck', sock') \<Rightarrow>
                   dealer_loop sock' deck' (dealer_hand @ [new_card])))"
  by pat_completeness auto
termination
  by (relation "measure (\<lambda>(client_sock, deck, dealer_hand). length deck)")
     (auto dest: draw_and_send_shorter)

declare dealer_loop.simps [simp del]

definition dealer_turn ::
  "sock \<Rightarrow> card list \<Rightarrow> card list \<Rightarrow> card \<Rightarrow> py_error + (bool \<times> card list \<times> card list \<times> sock)" where
  "dealer_turn client_sock deck dealer_hand dealer_hidden =
     (case pack_server_payload GAME_RESULT_NOTOVER (fst dealer_hidden) (snd dealer_hidden) of
        Inl e \<Rightarrow> Inl e
      | Inr msg \<Rightarrow> dealer_loop (sendall client_sock msg) deck (dealer_hand @ [dealer_hidden]))"

text \<open>server.py, \<open>end_round\<close>.\<close>

definition end_round :: "sock \<Rightarrow> int \<Rightarrow> py_error + sock" where
  "end_round client_sock game_result =
     (case pack_server_payload game_result 0 0 of
        Inl e \<Rightarrow> Inl e
      | Inr msg \<Rightarrow> Inr (sendall client_sock msg))"

text \<open>server.py, \<open>run_match_for_client\<close>. \<open>shuffle_deck\<close> is \<open>random.shuffle\<close>: the
  reordering it performs is the injected randomness, a function on decks. \<open>play_round\<close> is
  the body of the \<open>for r in range(rounds)\<close> loop; it returns the round's local variables
  as they stand after \<open>end_round\<close>.\<close>

definition shuffle_deck :: "(card list \<Rightarrow> card list) \<Rightarrow> card list \<Rightarrow> card list" where
  "shuffle_deck random_shuffle deck = random_shuffle deck"

record round_vars =
  rv_player_hand :: "card list"
  rv_dealer_hand :: "card list"
  rv_player_busted :: bool
  rv_dealer_busted :: bool
  rv_result :: int
  rv_deck :: "card list"
  rv_sock :: sock

definition decide_and_end ::
  "card list \<Rightarrow> card list \<Rightarrow> bool \<Rightarrow> bool \<Rightarrow> card list \<Rightarrow> sock \<Rightarrow> py_error + round_vars" where
  "decide_and_end player_hand dealer_hand player_busted dealer_busted deck client_sock =
     (let result = who_won player_hand dealer_hand player_busted dealer_busted
      in case end_round client_sock result of
           Inl e \<Rightarrow> Inl e
         | Inr sock' \<Rightarrow>
             Inr \<lparr>rv_player_hand = player_hand, rv_dealer_hand = dealer_hand,
                  rv_player_busted = player_busted, rv_dealer_busted = dealer_busted,
                  rv_result = result, rv_deck = deck, rv_sock = sock'\<rparr>)"

definition play_round :: "(card list \<Rightarrow> card list) \<Rightarrow> sock \<Rightarrow> py_error + round_vars" where
  "play_round random_shuffle client_sock =
     (let deck = shuffle_deck random_shuffle create_deck
      in case initial_deal deck client_sock of
           Inl e \<Rightarrow> Inl e
         | Inr (player_hand, dealer_hand, dealer_hidden, deck1, sock1) \<Rightarrow>
             if hand_total player_hand > 21 then
               decide_and_end player_hand dealer_hand True False deck1 sock1
             else
               (case player_turn sock1 deck1 player_hand of
                  Inl e \<Rightarrow> Inl e
                | Inr (player_busted, deck2, player_hand2, sock2) \<Rightarrow>
                    if \<not> player_busted then
                      (case dealer_turn sock2 deck2 dealer_hand dealer_hidden of
                         Inl e \<Rightarrow> Inl e
                       | Inr (dealer_busted, deck3, dealer_hand3, sock3) \<Rightarrow>
                           decide_and_end player_hand2 dealer_hand3 player_busted dealer_busted
                             deck3 sock3)
                    else decide_and_end player_hand2 dealer_hand player_busted False deck2 sock2))"

fun run_rounds :: "(nat \<Rightarrow> card list \<Rightarrow> card list) \<Rightarrow> sock \<Rightarrow> nat list \<Rightarrow> py_error + (int list \<times> sock)" where
  "run_rounds random_shuffles client_sock [] = Inr ([], client_sock)"
| "run_rounds random_shuffles client_sock (r # rs) =
     (case play_round (random_shuffles r) client_sock of
        Inl e \<Rightarrow> Inl e
      | Inr vars \<Rightarrow>
          (case run_rounds random_shuffles (rv_sock vars) rs of
             Inl e \<Rightarrow> Inl e
           | Inr (results, sock') \<Rightarrow> Inr (rv_result vars # results, sock')))"

definition run_match_for_client ::
  "(nat \<Rightarrow> card list \<Rightarrow> card list) \<Rightarrow> sock \<Rightarrow> int \<Rightarrow> py_error + (int list \<times> sock)" where
  "run_match_for_client random_shuffles client_sock rounds =
     run_rounds random_shuffles client_sock [0..<nat rounds]"

section \<open>Properties of the deck and hand engine\<close>

lemma hand_total_foldl:
  "foldl (\<lambda>total (rank, suit). total + rank_value rank) a hand =
     a + sum_list (map (\<lambda>(rank, suit). rank_value rank) hand)"
  by (induction hand arbitrary: a) (auto simp: case_prod_beta)

lemma hand_total_sum: "hand_total hand = sum_list (map (\<lambda>(rank, suit). rank_value rank) hand)"
  by (simp add: hand_total_def hand_total_foldl)

lemma hand_total_append: "hand_total (xs @ ys) = hand_total xs + hand_total ys"
  by (simp add: hand_total_sum)

lemma hand_total_Cons: "hand_total ((rank, suit) # hand) = rank_value rank + hand_total hand"
  by (simp add: hand_total_sum)

lemma hand_total_Nil: "hand_total [] = 0"
  by (simp add: hand_total_def)

text \<open>C2: \<open>rank_value\<close> sends rank 1 to 11, ranks 11, 12 and 13 to 10 and each rank from 2 to
  10 to itself; \<open>hand_total\<close> is the plain sum of \<open>rank_value\<close> over the cards of the hand, so
  an Ace counts 11 in every hand.\<close>

theorem rank_value_table_hand_total_sum:
  "rank_value 1 = 11
   \<and> (rank \<in> {11, 12, 13} \<longrightarrow> rank_value rank = 10)
   \<and> (2 \<le> rank \<and> rank \<le> 10 \<longrightarrow> rank_value rank = rank)
   \<and> hand_total hand = sum_list (map (\<lambda>(rank, suit). rank_value rank) hand)"
proof -
  have ace: "rank_value 1 = 11"
    by (simp add: rank_value_def)
  have face: "rank \<in> {11, 12, 13} \<longrightarrow> rank_value rank = 10"
    by (auto simp: rank_value_def)
  have pip: "2 \<le> rank \<and> rank \<le> 10 \<longrightarrow> rank_value rank = rank"
    by (simp add: rank_value_def)
  from ace face pip hand_total_sum show ?thesis
    by blast
qed

theorem rank_value_table_hand_total_sum_witness:
  "rank_value 1 = 11 \<and> rank_value 12 = 10 \<and> rank_value 7 = 7
   \<and> hand_total [(1, 0), (1, 3), (12, 2), (7, 1)] = 11 + 11 + 10 + 7"
  using rank_value_table_hand_total_sum [of 12 "[(1, 0), (1, 3), (12, 2), (7, 1)]"]
        rank_value_table_hand_total_sum [of 7 "[]"]
  by (simp add: rank_value_def)

text \<open>C3: \<open>who_won\<close> returns LOSS when the player busted; otherwise WIN when the dealer
  busted; otherwise it compares the two totals: WIN when the player's is strictly greater,
  LOSS when strictly smaller, TIE when they are equal.\<close>

theorem who_won_outcome:
  "(player_busted \<longrightarrow> who_won player_hand dealer_hand player_busted dealer_busted = GAME_RESULT_LOSS)
   \<and> (\<not> player_busted \<and> dealer_busted \<longrightarrow>
        who_won player_hand dealer_hand player_busted dealer_busted = GAME_RESULT_WIN)
   \<and> (\<not> player_busted \<and> \<not> dealer_busted \<and> hand_total player_hand > hand_total dealer_hand \<longrightarrow>
        who_won player_hand dealer_hand player_busted dealer_busted = GAME_RESULT_WIN)
   \<and> (\<not> player_busted \<and> \<not> dealer_busted \<and> hand_total player_hand < hand_total dealer_hand \<longrightarrow>
        who_won player_hand dealer_hand player_busted dealer_busted = GAME_RESULT_LOSS)
   \<and> (\<not> player_busted \<and> \<not> dealer_busted \<and> hand_total player_hand = hand_total dealer_hand \<longrightarrow>
        who_won player_hand dealer_hand player_busted dealer_busted = GAME_RESULT_TIE)
   \<and> GAME_RESULT_TIE = 1 \<and> GAME_RESULT_LOSS = 2 \<and> GAME_RESULT_WIN = 3"
  by (simp add: who_won_def Let_def GAME_RESULT_TIE_def GAME_RESULT_LOSS_def GAME_RESULT_WIN_def)

theorem who_won_outcome_witness:
  "who_won [(10, 0), (9, 1)] [(7, 2), (6, 3), (5, 0)] False False = 3
   \<and> who_won [(10, 0), (9, 1)] [(7, 2), (6, 3), (5, 0)] True False = 2
   \<and> who_won [(10, 0), (9, 1)] [(7, 2), (6, 3), (5, 0)] True True = 2
   \<and> who_won [(10, 0), (9, 1)] [(7, 2), (6, 3), (5, 0)] False True = 3
   \<and> who_won [(10, 0), (7, 1)] [(7, 2), (6, 3), (5, 0)] False False = 2
   \<and> who_won [(10, 0), (8, 1)] [(7, 2), (6, 3), (5, 0)] False False = 1"
proof -
  note w = who_won_outcome [unfolded GAME_RESULT_TIE_def GAME_RESULT_LOSS_def GAME_RESULT_WIN_def]
  have p19: "hand_total [(10, 0), (9, 1)] = 19" and p17: "hand_total [(10, 0), (7, 1)] = 17"
    and p18: "hand_total [(10, 0), (8, 1)] = 18" and d18: "hand_total [(7, 2), (6, 3), (5, 0)] = 18"
    by (simp_all add: hand_total_def rank_value_def)
  have a: "who_won [(10, 0), (9, 1)] [(7, 2), (6, 3), (5, 0)] False False = 3"
    using w [of False "[(10, 0), (9, 1)]" "[(7, 2), (6, 3), (5, 0)]" False] p19 d18 by simp
  have b: "who_won [(10, 0), (9, 1)] [(7, 2), (6, 3), (5, 0)] True False = 2"
    using w [of True "[(10, 0), (9, 1)]" "[(7, 2), (6, 3), (5, 0)]" False] by simp
  have c: "who_won [(10, 0), (9, 1)] [(7, 2), (6, 3), (5, 0)] True True = 2"
    using w [of True "[(10, 0), (9, 1)]" "[(7, 2), (6, 3), (5, 0)]" True] by simp
  have d: "who_won [(10, 0), (9, 1)] [(7, 2), (6, 3), (5, 0)] False True = 3"
    using w [of False "[(10, 0), (9, 1)]" "[(7, 2), (6, 3), (5, 0)]" True] by simp
  have e: "who_won [(10, 0), (7, 1)] [(7, 2), (6, 3), (5, 0)] False False = 2"
    using w [of False "[(10, 0), (7, 1)]" "[(7, 2), (6, 3), (5, 0)]" False] p17 d18 by simp
  have f: "who_won [(10, 0), (8, 1)] [(7, 2), (6, 3), (5, 0)] False False = 1"
    using w [of False "[(10, 0), (8, 1)]" "[(7, 2), (6, 3), (5, 0)]" False] p18 d18 by simp
  from a b c d e f show ?thesis by blast
qed


lemma create_deck_set: "set create_deck = {1..13} \<times> {0..3}"
  unfolding create_deck_def by auto


lemma client_player_ranks_foldl:
  "foldl (\<lambda>player_ranks (card_rank, card_suit). player_ranks @ [client_rank_value card_rank]) acc cards =
     acc @ map (\<lambda>(card_rank, card_suit). client_rank_value card_rank) cards"
  by (induction cards arbitrary: acc) (auto simp: case_prod_beta)

lemma client_rank_value_eq: "client_rank_value rank = rank_value rank"
  by (simp add: client_rank_value_def rank_value_def)

text \<open>C10: on every sequence of cards, the client's running total (each rank mapped
  through its \<open>rank_value\<close> as it arrives, the stored values summed by its \<open>hand_total\<close>) is
  the server's \<open>hand_total\<close> of the same cards, so the two sides agree on whether the
  player's total exceeds 21.\<close>

theorem client_total_eq_server_total:
  "client_hand_total (client_player_ranks cards) = hand_total cards
   \<and> ((client_hand_total (client_player_ranks cards) > 21) = (hand_total cards > 21))"
proof -
  have "client_player_ranks cards = map (\<lambda>(card_rank, card_suit). rank_value card_rank) cards"
    unfolding client_player_ranks_def client_player_ranks_foldl
    by (simp add: client_rank_value_eq)
  then have "client_hand_total (client_player_ranks cards) = hand_total cards"
    by (simp add: client_hand_total_def hand_total_sum)
  then show ?thesis by simp
qed

section \<open>The exact read\<close>

lemma sock_recv_length: "length (fst (sock_recv s k)) \<le> k"
  by (simp add: sock_recv_def split: list.splits)

lemma sock_recv_concat: "fst (sock_recv s k) @ concat (inbox (snd (sock_recv s k))) = concat (inbox s)"
  by (simp add: sock_recv_def split: list.splits)

lemma sock_recv_outbox: "outbox (snd (sock_recv s k)) = outbox s"
  by (simp add: sock_recv_def split: list.splits)

lemma sock_recv_nonempty:
  "[] \<notin> set (inbox s) \<Longrightarrow> inbox s \<noteq> [] \<Longrightarrow> 0 < k \<Longrightarrow> fst (sock_recv s k) \<noteq> []"
  by (auto simp: sock_recv_def split: list.splits)

lemma sock_recv_keeps_nonempty:
  "[] \<notin> set (inbox s) \<Longrightarrow> [] \<notin> set (inbox (snd (sock_recv s k)))"
  by (auto simp: sock_recv_def split: list.splits)

lemma recv_exact_loop_length:
  "int (length data) \<le> n \<Longrightarrow> recv_exact_loop s n data = Inr (d, s') \<Longrightarrow> int (length d) = n"
proof (induction s n data rule: recv_exact_loop.induct)
  case (1 s n data)
  show ?case
  proof (cases "int (length data) < n")
    case True
    let ?r = "sock_recv s (nat (n - int (length data)))"
    from True "1.prems"(2) have ne: "fst ?r \<noteq> []"
      and rec: "recv_exact_loop (snd ?r) n (data @ fst ?r) = Inr (d, s')"
      by (auto simp: recv_exact_loop.simps [of s n data] Let_def split: if_splits)
    have "length (fst ?r) \<le> nat (n - int (length data))"
      by (rule sock_recv_length)
    with True have "int (length (data @ fst ?r)) \<le> n"
      by simp
    with "1.IH" [OF True refl ne] rec show ?thesis
      by blast
  next
    case False
    with "1.prems" show ?thesis
      by (simp add: recv_exact_loop.simps [of s n data])
  qed
qed

lemma recv_exact_loop_stream:
  "recv_exact_loop s n data = Inr (d, s') \<Longrightarrow>
     d @ concat (inbox s') = data @ concat (inbox s) \<and> outbox s' = outbox s"
proof (induction s n data rule: recv_exact_loop.induct)
  case (1 s n data)
  show ?case
  proof (cases "int (length data) < n")
    case True
    let ?r = "sock_recv s (nat (n - int (length data)))"
    from True "1.prems" have ne: "fst ?r \<noteq> []"
      and rec: "recv_exact_loop (snd ?r) n (data @ fst ?r) = Inr (d, s')"
      by (auto simp: recv_exact_loop.simps [of s n data] Let_def split: if_splits)
    from "1.IH" [OF True refl ne rec]
    have "d @ concat (inbox s') = (data @ fst ?r) @ concat (inbox (snd ?r))"
      and "outbox s' = outbox (snd ?r)"
      by simp_all
    then show ?thesis
      using sock_recv_concat [of s "nat (n - int (length data))"]
      by (simp add: sock_recv_outbox)
  next
    case False
    with "1.prems" show ?thesis
      by (simp add: recv_exact_loop.simps [of s n data])
  qed
qed

lemma recv_exact_loop_closed:
  "int (length data + length (concat (inbox s))) < n \<Longrightarrow> recv_exact_loop s n data = Inl ConnectionError"
proof (induction s n data rule: recv_exact_loop.induct)
  case (1 s n data)
  let ?r = "sock_recv s (nat (n - int (length data)))"
  from "1.prems" have lt: "int (length data) < n"
    by simp
  show ?case
  proof (cases "fst ?r = []")
    case True
    with lt show ?thesis
      by (simp add: recv_exact_loop.simps [of s n data] Let_def)
  next
    case False
    have "length (fst ?r) + length (concat (inbox (snd ?r))) = length (concat (inbox s))"
      using sock_recv_concat [of s "nat (n - int (length data))"]
      by (metis length_append)
    with "1.prems" have "int (length (data @ fst ?r) + length (concat (inbox (snd ?r)))) < n"
      by simp
    from "1.IH" [OF lt refl False this] lt False show ?thesis
      by (simp add: recv_exact_loop.simps [of s n data] Let_def)
  qed
qed

lemma recv_exact_loop_enough:
  "[] \<notin> set (inbox s) \<Longrightarrow> n \<le> int (length data + length (concat (inbox s))) \<Longrightarrow>
     \<exists>d s'. recv_exact_loop s n data = Inr (d, s') \<and> [] \<notin> set (inbox s')"
proof (induction s n data rule: recv_exact_loop.induct)
  case (1 s n data)
  show ?case
  proof (cases "int (length data) < n")
    case True
    let ?k = "nat (n - int (length data))"
    let ?r = "sock_recv s ?k"
    from True "1.prems"(2) have "0 < length (concat (inbox s))"
      by linarith
    then have "inbox s \<noteq> []"
      by auto
    with "1.prems"(1) True have ne: "fst ?r \<noteq> []"
      by (intro sock_recv_nonempty) auto
    have keep: "[] \<notin> set (inbox (snd ?r))"
      using "1.prems"(1) by (rule sock_recv_keeps_nonempty)
    have "length (fst ?r) + length (concat (inbox (snd ?r))) = length (concat (inbox s))"
      using sock_recv_concat [of s ?k]
      by (metis length_append)
    with "1.prems"(2) have "n \<le> int (length (data @ fst ?r) + length (concat (inbox (snd ?r))))"
      by simp
    from "1.IH" [OF True refl ne keep this] True ne show ?thesis
      by (simp add: recv_exact_loop.simps [of s n data] Let_def)
  next
    case False
    with "1.prems" show ?thesis
      by (simp add: recv_exact_loop.simps [of s n data])
  qed
qed

lemma client_recv_exact_loop_eq:
  "client_recv_exact_loop s n data = recv_exact_loop s n data"
proof (induction s n data rule: recv_exact_loop.induct)
  case (1 s n data)
  then show ?case
    by (simp add: recv_exact_loop.simps [of s n data] client_recv_exact_loop.simps [of s n data]
        Let_def)
qed


lemma recv_exact_loop_error:
  "recv_exact_loop s n data = Inl e \<Longrightarrow> e = ConnectionError"
proof (induction s n data rule: recv_exact_loop.induct)
  case (1 s n data)
  let ?r = "sock_recv s (nat (n - int (length data)))"
  show ?case
  proof (cases "int (length data) < n \<and> fst ?r \<noteq> []")
    case True
    with "1.prems" have "recv_exact_loop (snd ?r) n (data @ fst ?r) = Inl e"
      by (simp add: recv_exact_loop.simps [of s n data] Let_def)
    with "1.IH" True show ?thesis
      by blast
  next
    case False
    with "1.prems" show ?thesis
      by (auto simp: recv_exact_loop.simps [of s n data] Let_def split: if_splits)
  qed
qed

lemma recv_exact_result:
  assumes "0 \<le> n" and "recv_exact s n = Inr (d, s')"
  shows "d = take (nat n) (concat (inbox s)) \<and> int (length d) = n
         \<and> concat (inbox s') = drop (nat n) (concat (inbox s)) \<and> outbox s' = outbox s"
proof -
  from assms have len: "int (length d) = n"
    using recv_exact_loop_length [of "[]" n s d s'] by (simp add: recv_exact_def)
  from assms(2) have str: "d @ concat (inbox s') = concat (inbox s)" and out: "outbox s' = outbox s"
    using recv_exact_loop_stream [of s n "[]" d s'] by (simp_all add: recv_exact_def)
  from len have n: "nat n = length d"
    by simp
  from str have "d = take (length d) (concat (inbox s))"
    and "concat (inbox s') = drop (length d) (concat (inbox s))"
    by (simp_all add: append_eq_conv_conj)
  with len out n show ?thesis
    by simp
qed

text \<open>C9: for every requested length \<open>n\<close> and every state of the stream, \<open>recv_exact\<close>
  (the server's and the client's) either returns exactly the next \<open>n\<close> bytes of the stream,
  put together from however many partial reads it takes, or fails with \<open>ConnectionError\<close>;
  it never returns a shorter byte string. It fails whenever the stream is closed with fewer
  than \<open>n\<close> bytes left, and it succeeds whenever \<open>n\<close> bytes do arrive.\<close>

theorem recv_exact_all_or_connection_error:
  "0 \<le> n \<Longrightarrow>
     (recv_exact s n = Inl ConnectionError
      \<or> (\<exists>s'. recv_exact s n = Inr (take (nat n) (concat (inbox s)), s')
               \<and> int (length (take (nat n) (concat (inbox s)))) = n
               \<and> concat (inbox s') = drop (nat n) (concat (inbox s))
               \<and> outbox s' = outbox s))
     \<and> (int (length (concat (inbox s))) < n \<longrightarrow> recv_exact s n = Inl ConnectionError)
     \<and> ([] \<notin> set (inbox s) \<and> n \<le> int (length (concat (inbox s))) \<longrightarrow>
          (\<exists>s'. recv_exact s n = Inr (take (nat n) (concat (inbox s)), s')))
     \<and> client_recv_exact s n = recv_exact s n"
proof -
  assume n: "0 \<le> n"
  have shape: "recv_exact s n = Inl ConnectionError
      \<or> (\<exists>s'. recv_exact s n = Inr (take (nat n) (concat (inbox s)), s')
               \<and> int (length (take (nat n) (concat (inbox s)))) = n
               \<and> concat (inbox s') = drop (nat n) (concat (inbox s))
               \<and> outbox s' = outbox s)"
  proof (cases "recv_exact s n")
    case (Inl e)
    then have "e = ConnectionError"
      using recv_exact_loop_error [of s n "[]" e] by (simp add: recv_exact_def)
    with Inl show ?thesis
      by simp
  next
    case (Inr r)
    obtain d s' where r: "r = (d, s')"
      by (cases r)
    from recv_exact_result [OF n] Inr r show ?thesis
      by auto
  qed
  have closed: "int (length (concat (inbox s))) < n \<longrightarrow> recv_exact s n = Inl ConnectionError"
    using recv_exact_loop_closed [of "[]" s n] by (simp add: recv_exact_def)
  have enough: "[] \<notin> set (inbox s) \<and> n \<le> int (length (concat (inbox s))) \<longrightarrow>
          (\<exists>s'. recv_exact s n = Inr (take (nat n) (concat (inbox s)), s'))"
  proof
    assume a: "[] \<notin> set (inbox s) \<and> n \<le> int (length (concat (inbox s)))"
    with recv_exact_loop_enough [of s n "[]"]
    obtain d s' where "recv_exact s n = Inr (d, s')"
      by (auto simp: recv_exact_def)
    with recv_exact_result [OF n this] show "\<exists>s'. recv_exact s n = Inr (take (nat n) (concat (inbox s)), s')"
      by auto
  qed
  have client: "client_recv_exact s n = recv_exact s n"
    by (simp add: client_recv_exact_def recv_exact_def client_recv_exact_loop_eq)
  from shape closed enough client show ?thesis
    by blast
qed

theorem recv_exact_all_or_connection_error_witness:
  "(\<exists>s'. recv_exact \<lparr>inbox = [[1, 2, 3], [4, 5], [6, 7, 8, 9, 10, 11, 12]], outbox = []\<rparr> 10
          = Inr ([1, 2, 3, 4, 5, 6, 7, 8, 9, 10], s'))
   \<and> recv_exact \<lparr>inbox = [[1, 2, 3], [4, 5]], outbox = []\<rparr> 10 = Inl ConnectionError
   \<and> client_recv_exact \<lparr>inbox = [[1, 2, 3], [4, 5]], outbox = []\<rparr> 10 = Inl ConnectionError"
  using recv_exact_all_or_connection_error
          [of 10 "\<lparr>inbox = [[1, 2, 3], [4, 5], [6, 7, 8, 9, 10, 11, 12]], outbox = []\<rparr>"]
        recv_exact_all_or_connection_error [of 10 "\<lparr>inbox = [[1, 2, 3], [4, 5]], outbox = []\<rparr>"]
  by simp

section \<open>The dealer's turn\<close>

lemma draw_and_send_Inr:
  "draw_and_send deck s = Inr (c, deck', s') \<longleftrightarrow>
     deck = deck' @ [c]
     \<and> (\<exists>msg. pack_server_payload GAME_RESULT_NOTOVER (fst c) (snd c) = Inr msg \<and> s' = sendall s msg)"
  by (auto simp: draw_and_send_def deck_pop_def snoc_eq_iff_butlast split: sum.splits)

lemma draw_and_send_empty: "draw_and_send [] s = Inl IndexError"
  by (simp add: draw_and_send_def deck_pop_def)

lemma dealer_loop_bust:
  "hand_total dealer_hand > 21 \<Longrightarrow> dealer_loop s deck dealer_hand = Inr (True, deck, dealer_hand, s)"
  by (simp add: dealer_loop.simps [of s deck dealer_hand])

lemma dealer_loop_stand:
  "17 \<le> hand_total dealer_hand \<Longrightarrow> hand_total dealer_hand \<le> 21 \<Longrightarrow>
     dealer_loop s deck dealer_hand = Inr (False, deck, dealer_hand, s)"
  by (simp add: dealer_loop.simps [of s deck dealer_hand])

lemma dealer_loop_draw:
  "hand_total dealer_hand < 17 \<Longrightarrow>
     pack_server_payload GAME_RESULT_NOTOVER (fst new_card) (snd new_card) = Inr msg \<Longrightarrow>
     dealer_loop s (deck @ [new_card]) dealer_hand
       = dealer_loop (sendall s msg) deck (dealer_hand @ [new_card])"
  by (simp add: dealer_loop.simps [of s "deck @ [new_card]" dealer_hand]
      draw_and_send_def deck_pop_def)

lemma dealer_loop_exhausted:
  "hand_total dealer_hand < 17 \<Longrightarrow> dealer_loop s [] dealer_hand = Inl IndexError"
  by (simp add: dealer_loop.simps [of s "[]" dealer_hand] draw_and_send_empty)

lemma dealer_loop_result:
  "dealer_loop s deck hand = Inr (busted, deck', hand', s') \<Longrightarrow>
     \<exists>drawn msgs.
        hand' = hand @ drawn \<and> deck = deck' @ rev drawn
        \<and> 17 \<le> hand_total hand' \<and> busted = (21 < hand_total hand')
        \<and> (\<forall>k<length drawn. hand_total (hand @ take k drawn) < 17)
        \<and> outbox s' = outbox s @ msgs \<and> inbox s' = inbox s
        \<and> map Inr msgs = map (\<lambda>c. pack_server_payload GAME_RESULT_NOTOVER (fst c) (snd c)) drawn"
proof (induction s deck hand rule: dealer_loop.induct)
  case (1 s deck hand)
  show ?case
  proof (cases "hand_total hand < 17")
    case False
    with "1.prems" have "hand' = hand" "deck' = deck" "s' = s" "busted = (21 < hand_total hand)"
      by (auto simp: dealer_loop.simps [of s deck hand] Let_def split: if_splits)
    with False show ?thesis
      by (intro exI [of _ "[]"]) simp
  next
    case True
    with "1.prems" obtain c deck1 s1 where
      d: "draw_and_send deck s = Inr (c, deck1, s1)"
      and rec: "dealer_loop s1 deck1 (hand @ [c]) = Inr (busted, deck', hand', s')"
      by (auto simp: dealer_loop.simps [of s deck hand] Let_def split: sum.splits)
    from d obtain msg where deck: "deck = deck1 @ [c]"
      and msg: "pack_server_payload GAME_RESULT_NOTOVER (fst c) (snd c) = Inr msg"
      and s1: "s1 = sendall s msg"
      by (auto simp: draw_and_send_Inr)
    from True have a: "\<not> 21 < hand_total hand" "\<not> 17 \<le> hand_total hand"
      by simp_all
    from "1.IH" [OF refl a d refl refl rec]
    obtain drawn msgs where
      h: "hand' = (hand @ [c]) @ drawn" and dk: "deck1 = deck' @ rev drawn"
      and t: "17 \<le> hand_total hand'" and b: "busted = (21 < hand_total hand')"
      and below: "\<forall>k<length drawn. hand_total ((hand @ [c]) @ take k drawn) < 17"
      and out: "outbox s' = outbox s1 @ msgs" and inb: "inbox s' = inbox s1"
      and ms: "map Inr msgs = map (\<lambda>c. pack_server_payload GAME_RESULT_NOTOVER (fst c) (snd c)) drawn"
      by blast
    have below': "\<forall>k<length (c # drawn). hand_total (hand @ take k (c # drawn)) < 17"
    proof (intro allI impI)
      fix k assume k: "k < length (c # drawn)"
      show "hand_total (hand @ take k (c # drawn)) < 17"
      proof (cases k)
        case 0
        with True show ?thesis by simp
      next
        case (Suc j)
        with k below show ?thesis by simp
      qed
    qed
    show ?thesis
      apply (rule exI [of _ "c # drawn"])
      apply (rule exI [of _ "msg # msgs"])
      using h dk t b below' out inb ms deck msg s1
      apply (simp add: sendall_def)
      done
  qed
qed


lemma pack_server_payload_Inr:
  "0 \<le> g \<and> g \<le> 255 \<Longrightarrow> 0 \<le> r \<and> r \<le> 65535 \<Longrightarrow> 0 \<le> u \<and> u \<le> 255 \<Longrightarrow>
     pack_server_payload g r u =
       Inr (be_bytes 4 MAGIC_COOKIE @ be_bytes 1 MTYPE_PAYLOAD @ be_bytes 1 g @ be_bytes 2 r
            @ be_bytes 1 u)"
  by (simp add: pack_server_payload_def pack_uint_def MAGIC_COOKIE_def MTYPE_PAYLOAD_def)

lemma be_bytes_1: "be_bytes 1 v = [word_of_int (v mod 256)]"
  by (simp add: eval_nat_numeral)

lemma be_bytes_2: "be_bytes 2 v = [word_of_int (v div 256 mod 256), word_of_int (v mod 256)]"
  by (simp add: eval_nat_numeral)

lemma be_bytes_4:
  "be_bytes 4 v = [word_of_int (v div 256 div 256 div 256 mod 256),
                   word_of_int (v div 256 div 256 mod 256),
                   word_of_int (v div 256 mod 256), word_of_int (v mod 256)]"
  by (simp add: eval_nat_numeral)

lemma magic_bytes: "be_bytes 4 MAGIC_COOKIE = [0xab, 0xcd, 0xdc, 0xba]"
  by (simp add: be_bytes_4 MAGIC_COOKIE_def)

lemma card_payload:
  "0 \<le> r \<and> r \<le> 255 \<Longrightarrow> 0 \<le> u \<and> u \<le> 255 \<Longrightarrow>
     pack_server_payload GAME_RESULT_NOTOVER r u =
       Inr [0xab, 0xcd, 0xdc, 0xba, 4, 0, 0, word_of_int r, word_of_int u]"
  by (simp add: pack_server_payload_Inr GAME_RESULT_NOTOVER_def magic_bytes be_bytes_1 be_bytes_2
      MTYPE_PAYLOAD_def)


text \<open>C4: \<open>dealer_turn\<close> appends the hidden card to the dealer's hand (and sends it), then
  runs the loop: with a total above 21 the dealer is busted and stops; with a total of at
  least 17 the dealer stands, not busted, and stops without drawing; below 17 the dealer
  draws exactly one card (the last of the deck, appended to the hand and sent) and the loop
  runs again. So whenever the turn returns, every hand the dealer drew on had a total below
  17, the final total is at least 17, and the dealer is busted exactly when it exceeds 21.\<close>

theorem dealer_turn_hits_below_17_stands_from_17:
  "(pack_server_payload GAME_RESULT_NOTOVER (fst dealer_hidden) (snd dealer_hidden) = Inr msg \<longrightarrow>
      dealer_turn s deck dealer_hand dealer_hidden
        = dealer_loop (sendall s msg) deck (dealer_hand @ [dealer_hidden]))
   \<and> (21 < hand_total hand \<longrightarrow> dealer_loop s deck hand = Inr (True, deck, hand, s))
   \<and> (17 \<le> hand_total hand \<and> hand_total hand \<le> 21 \<longrightarrow>
        dealer_loop s deck hand = Inr (False, deck, hand, s))
   \<and> (hand_total hand < 17
        \<and> pack_server_payload GAME_RESULT_NOTOVER (fst new_card) (snd new_card) = Inr card_msg \<longrightarrow>
        dealer_loop s (deck @ [new_card]) hand
          = dealer_loop (sendall s card_msg) deck (hand @ [new_card]))
   \<and> (hand_total hand < 17 \<longrightarrow> dealer_loop s [] hand = Inl IndexError)
   \<and> (dealer_turn s deck dealer_hand dealer_hidden = Inr (busted, deck', hand', s') \<longrightarrow>
        (\<exists>drawn.
           hand' = dealer_hand @ [dealer_hidden] @ drawn \<and> deck = deck' @ rev drawn
           \<and> (\<forall>k<length drawn. hand_total (dealer_hand @ [dealer_hidden] @ take k drawn) < 17)
           \<and> 17 \<le> hand_total hand' \<and> busted = (21 < hand_total hand')
           \<and> map Inr (drop (length (outbox s)) (outbox s'))
               = map (\<lambda>c. pack_server_payload GAME_RESULT_NOTOVER (fst c) (snd c))
                   (dealer_hidden # drawn)))"
proof -
  have reveal: "pack_server_payload GAME_RESULT_NOTOVER (fst dealer_hidden) (snd dealer_hidden) = Inr msg \<longrightarrow>
      dealer_turn s deck dealer_hand dealer_hidden
        = dealer_loop (sendall s msg) deck (dealer_hand @ [dealer_hidden])"
    by (simp add: dealer_turn_def)
  have bust: "21 < hand_total hand \<longrightarrow> dealer_loop s deck hand = Inr (True, deck, hand, s)"
    by (simp add: dealer_loop_bust)
  have stand: "17 \<le> hand_total hand \<and> hand_total hand \<le> 21 \<longrightarrow>
        dealer_loop s deck hand = Inr (False, deck, hand, s)"
    by (simp add: dealer_loop_stand)
  have draw: "hand_total hand < 17
        \<and> pack_server_payload GAME_RESULT_NOTOVER (fst new_card) (snd new_card) = Inr card_msg \<longrightarrow>
        dealer_loop s (deck @ [new_card]) hand
          = dealer_loop (sendall s card_msg) deck (hand @ [new_card])"
    using dealer_loop_draw by blast
  have exhausted: "hand_total hand < 17 \<longrightarrow> dealer_loop s [] hand = Inl IndexError"
    by (simp add: dealer_loop_exhausted)
  have whole: "dealer_turn s deck dealer_hand dealer_hidden = Inr (busted, deck', hand', s') \<longrightarrow>
        (\<exists>drawn.
           hand' = dealer_hand @ [dealer_hidden] @ drawn \<and> deck = deck' @ rev drawn
           \<and> (\<forall>k<length drawn. hand_total (dealer_hand @ [dealer_hidden] @ take k drawn) < 17)
           \<and> 17 \<le> hand_total hand' \<and> busted = (21 < hand_total hand')
           \<and> map Inr (drop (length (outbox s)) (outbox s'))
               = map (\<lambda>c. pack_server_payload GAME_RESULT_NOTOVER (fst c) (snd c))
                   (dealer_hidden # drawn))"
  proof
    assume r: "dealer_turn s deck dealer_hand dealer_hidden = Inr (busted, deck', hand', s')"
    then obtain m where
      m: "pack_server_payload GAME_RESULT_NOTOVER (fst dealer_hidden) (snd dealer_hidden) = Inr m"
      and l: "dealer_loop (sendall s m) deck (dealer_hand @ [dealer_hidden])
                = Inr (busted, deck', hand', s')"
      by (auto simp: dealer_turn_def split: sum.splits)
    from dealer_loop_result [OF l] obtain drawn msgs where
      h: "hand' = (dealer_hand @ [dealer_hidden]) @ drawn" and dk: "deck = deck' @ rev drawn"
      and t: "17 \<le> hand_total hand'" and b: "busted = (21 < hand_total hand')"
      and below: "\<forall>k<length drawn. hand_total ((dealer_hand @ [dealer_hidden]) @ take k drawn) < 17"
      and out: "outbox s' = outbox (sendall s m) @ msgs"
      and ms: "map Inr msgs = map (\<lambda>c. pack_server_payload GAME_RESULT_NOTOVER (fst c) (snd c)) drawn"
      by blast
    from out have "drop (length (outbox s)) (outbox s') = m # msgs"
      by (simp add: sendall_def)
    with ms m have "map Inr (drop (length (outbox s)) (outbox s'))
               = map (\<lambda>c. pack_server_payload GAME_RESULT_NOTOVER (fst c) (snd c))
                   (dealer_hidden # drawn)"
      by simp
    with h dk t b below show "\<exists>drawn.
           hand' = dealer_hand @ [dealer_hidden] @ drawn \<and> deck = deck' @ rev drawn
           \<and> (\<forall>k<length drawn. hand_total (dealer_hand @ [dealer_hidden] @ take k drawn) < 17)
           \<and> 17 \<le> hand_total hand' \<and> busted = (21 < hand_total hand')
           \<and> map Inr (drop (length (outbox s)) (outbox s'))
               = map (\<lambda>c. pack_server_payload GAME_RESULT_NOTOVER (fst c) (snd c))
                   (dealer_hidden # drawn)"
      by (intro exI [of _ drawn]) simp
  qed
  from reveal bust stand draw exhausted whole show ?thesis
    by blast
qed

theorem dealer_turn_hits_below_17_stands_from_17_witness:
  "dealer_loop \<lparr>inbox = [], outbox = []\<rparr> [(9, 1), (5, 2)] [(10, 0), (6, 1)]
     = Inr (False, [(9, 1)], [(10, 0), (6, 1), (5, 2)],
            \<lparr>inbox = [], outbox = [[0xab, 0xcd, 0xdc, 0xba, 4, 0, 0, 5, 2]]\<rparr>)
   \<and> dealer_loop \<lparr>inbox = [], outbox = []\<rparr> [(9, 1), (5, 2)] [(10, 0), (7, 1)]
     = Inr (False, [(9, 1), (5, 2)], [(10, 0), (7, 1)], \<lparr>inbox = [], outbox = []\<rparr>)
   \<and> dealer_loop \<lparr>inbox = [], outbox = []\<rparr> [(9, 1), (5, 2)] [(10, 0), (6, 1), (13, 3)]
     = Inr (True, [(9, 1), (5, 2)], [(10, 0), (6, 1), (13, 3)], \<lparr>inbox = [], outbox = []\<rparr>)
   \<and> dealer_turn \<lparr>inbox = [], outbox = []\<rparr> [(9, 1), (5, 0)] [(7, 2)] (6, 3)
     = Inr (False, [(9, 1)], [(7, 2), (6, 3), (5, 0)],
            \<lparr>inbox = [], outbox = [[0xab, 0xcd, 0xdc, 0xba, 4, 0, 0, 6, 3],
                                    [0xab, 0xcd, 0xdc, 0xba, 4, 0, 0, 5, 0]]\<rparr>)"
proof -
  let ?s = "\<lparr>inbox = [], outbox = []\<rparr>"
  note T = dealer_turn_hits_below_17_stands_from_17
  have t16: "hand_total [(10, 0), (6, 1)] = 16" and t21: "hand_total [(10, 0), (6, 1), (5, 2)] = 21"
    and t17: "hand_total [(10, 0), (7, 1)] = 17" and t26: "hand_total [(10, 0), (6, 1), (13, 3)] = 26"
    and t13: "hand_total [(7, 2), (6, 3)] = 13" and t18: "hand_total [(7, 2), (6, 3), (5, 0)] = 18"
    by (simp_all add: hand_total_def rank_value_def)
  have a: "dealer_loop ?s [(9, 1), (5, 2)] [(10, 0), (6, 1)]
     = Inr (False, [(9, 1)], [(10, 0), (6, 1), (5, 2)],
            \<lparr>inbox = [], outbox = [[0xab, 0xcd, 0xdc, 0xba, 4, 0, 0, 5, 2]]\<rparr>)"
    using T [of "(5, 2)" "[0xab, 0xcd, 0xdc, 0xba, 4, 0, 0, 5, 2]" ?s "[(9, 1)]" "[]" "[(10, 0), (6, 1)]"
               "(5, 2)" "[0xab, 0xcd, 0xdc, 0xba, 4, 0, 0, 5, 2]"]
          T [of "(5, 2)" "[0xab, 0xcd, 0xdc, 0xba, 4, 0, 0, 5, 2]"
               "sendall ?s [0xab, 0xcd, 0xdc, 0xba, 4, 0, 0, 5, 2]" "[(9, 1)]" "[]"
               "[(10, 0), (6, 1), (5, 2)]"]
          t16 t21
    by (simp add: card_payload sendall_def)
  have b: "dealer_loop ?s [(9, 1), (5, 2)] [(10, 0), (7, 1)]
     = Inr (False, [(9, 1), (5, 2)], [(10, 0), (7, 1)], ?s)"
    using T [of "(5, 2)" "[]" ?s "[(9, 1), (5, 2)]" "[]" "[(10, 0), (7, 1)]"] t17
    by simp
  have c: "dealer_loop ?s [(9, 1), (5, 2)] [(10, 0), (6, 1), (13, 3)]
     = Inr (True, [(9, 1), (5, 2)], [(10, 0), (6, 1), (13, 3)], ?s)"
    using T [of "(5, 2)" "[]" ?s "[(9, 1), (5, 2)]" "[]" "[(10, 0), (6, 1), (13, 3)]"] t26
    by simp
  let ?s1 = "sendall ?s [0xab, 0xcd, 0xdc, 0xba, 4, 0, 0, 6, 3]"
  let ?s2 = "sendall ?s1 [0xab, 0xcd, 0xdc, 0xba, 4, 0, 0, 5, 0]"
  have d1: "dealer_turn ?s [(9, 1), (5, 0)] [(7, 2)] (6, 3) = dealer_loop ?s1 [(9, 1), (5, 0)] [(7, 2), (6, 3)]"
    using T [of "(6, 3)" "[0xab, 0xcd, 0xdc, 0xba, 4, 0, 0, 6, 3]" ?s "[(9, 1), (5, 0)]" "[(7, 2)]"]
    by (simp add: card_payload)
  have d2: "dealer_loop ?s1 [(9, 1), (5, 0)] [(7, 2), (6, 3)] = dealer_loop ?s2 [(9, 1)] [(7, 2), (6, 3), (5, 0)]"
    using T [of "(6, 3)" "[]" ?s1 "[(9, 1)]" "[]" "[(7, 2), (6, 3)]" "(5, 0)"
               "[0xab, 0xcd, 0xdc, 0xba, 4, 0, 0, 5, 0]"] t13
    by (simp add: card_payload)
  have d3: "dealer_loop ?s2 [(9, 1)] [(7, 2), (6, 3), (5, 0)] = Inr (False, [(9, 1)], [(7, 2), (6, 3), (5, 0)], ?s2)"
    using T [of "(6, 3)" "[]" ?s2 "[(9, 1)]" "[]" "[(7, 2), (6, 3), (5, 0)]"] t18
    by simp
  from d1 d2 d3 have d: "dealer_turn ?s [(9, 1), (5, 0)] [(7, 2)] (6, 3)
     = Inr (False, [(9, 1)], [(7, 2), (6, 3), (5, 0)],
            \<lparr>inbox = [], outbox = [[0xab, 0xcd, 0xdc, 0xba, 4, 0, 0, 6, 3],
                                    [0xab, 0xcd, 0xdc, 0xba, 4, 0, 0, 5, 0]]\<rparr>)"
    by (simp add: sendall_def)
  from a b c d show ?thesis
    by blast
qed

section \<open>The draws\<close>



lemma draw_and_send_error:
  "draw_and_send deck s = Inl e \<Longrightarrow> e = IndexError \<and> deck = [] \<or> e = struct_error \<and> deck \<noteq> []"
  by (auto simp: draw_and_send_def deck_pop_def pack_server_payload_def pack_uint_def
      split: sum.splits if_splits)





lemma player_turn_stand:
  assumes "hand_total hand \<le> 21"
    and "recv_exact s (int CLIENT_PAYLOAD_SIZE) = Inr (data, s1)"
    and "unpack_client_payload data = Inr (MAGIC_COOKIE, t, py_str ''Stand'')"
  shows "player_turn s deck hand = Inr (False, deck, hand, s1)"
  using assms
  by (simp add: player_turn.simps [of s deck hand] py_str_def)

lemma player_turn_bust:
  "hand_total hand > 21 \<Longrightarrow> player_turn s deck hand = Inr (True, deck, hand, s)"
  by (simp add: player_turn.simps [of s deck hand])


lemma result_payload:
  "0 \<le> g \<and> g \<le> 255 \<Longrightarrow>
     pack_server_payload g 0 0 = Inr [0xab, 0xcd, 0xdc, 0xba, 4, word_of_int g, 0, 0, 0]"
  by (simp add: pack_server_payload_Inr magic_bytes be_bytes_1 be_bytes_2 MTYPE_PAYLOAD_def)

lemma draw_and_send_snoc:
  "0 \<le> fst c \<and> fst c \<le> 255 \<Longrightarrow> 0 \<le> snd c \<and> snd c \<le> 255 \<Longrightarrow>
     draw_and_send (deck @ [c]) s =
       Inr (c, deck, sendall s [0xab, 0xcd, 0xdc, 0xba, 4, 0, 0, word_of_int (fst c), word_of_int (snd c)])"
  by (simp add: draw_and_send_def deck_pop_def card_payload)

lemma initial_deal_snoc4:
  assumes "\<forall>c \<in> {c1, c2, c3}. 0 \<le> fst c \<and> fst c \<le> 255 \<and> 0 \<le> snd c \<and> snd c \<le> 255"
  shows "initial_deal (rest @ [c4, c3, c2, c1]) s =
     Inr ([c1, c2], [c3], c4, rest,
          s\<lparr>outbox := outbox s @
             [[0xab, 0xcd, 0xdc, 0xba, 4, 0, 0, word_of_int (fst c1), word_of_int (snd c1)],
              [0xab, 0xcd, 0xdc, 0xba, 4, 0, 0, word_of_int (fst c2), word_of_int (snd c2)],
              [0xab, 0xcd, 0xdc, 0xba, 4, 0, 0, word_of_int (fst c3), word_of_int (snd c3)]]\<rparr>)"
proof -
  have d1: "draw_and_send ((rest @ [c4, c3, c2]) @ [c1]) s = Inr (c1, rest @ [c4, c3, c2],
      sendall s [0xab, 0xcd, 0xdc, 0xba, 4, 0, 0, word_of_int (fst c1), word_of_int (snd c1)])"
    using assms by (intro draw_and_send_snoc) auto
  have d2: "draw_and_send ((rest @ [c4, c3]) @ [c2]) s' = Inr (c2, rest @ [c4, c3],
      sendall s' [0xab, 0xcd, 0xdc, 0xba, 4, 0, 0, word_of_int (fst c2), word_of_int (snd c2)])" for s'
    using assms by (intro draw_and_send_snoc) auto
  have d3: "draw_and_send ((rest @ [c4]) @ [c3]) s' = Inr (c3, rest @ [c4],
      sendall s' [0xab, 0xcd, 0xdc, 0xba, 4, 0, 0, word_of_int (fst c3), word_of_int (snd c3)])" for s'
    using assms by (intro draw_and_send_snoc) auto
  have d4: "deck_pop (rest @ [c4]) = Inr (c4, rest)"
    by (simp add: deck_pop_def)
  from d1 d2 d3 d4 show ?thesis
    by (simp add: initial_deal_def sendall_def)
qed

lemma create_deck_card_range:
  "c \<in> set create_deck \<Longrightarrow> 1 \<le> fst c \<and> fst c \<le> 13 \<and> 0 \<le> snd c \<and> snd c \<le> 3"
  by (auto simp: create_deck_set)








section \<open>A round lost on the deal\<close>

text \<open>C5: when the player's two initial cards already total more than 21 (two Aces, 22),
  the round runs neither the player's turn nor the dealer's: nothing is read from the
  client, no further card is drawn, the dealer's hand stays at the upcard; the round counts
  the player as busted and the dealer as not busted, its outcome is LOSS, and what is sent
  is the three dealt cards and the LOSS result.\<close>

theorem play_round_initial_bust_is_loss:
  "(initial_deal (shuffle_deck random_shuffle create_deck) s
      = Inr (player_hand, dealer_hand, dealer_hidden, deck1, s1)
    \<and> hand_total player_hand > 21 \<longrightarrow>
      play_round random_shuffle s =
        Inr \<lparr>rv_player_hand = player_hand, rv_dealer_hand = dealer_hand,
             rv_player_busted = True, rv_dealer_busted = False,
             rv_result = GAME_RESULT_LOSS, rv_deck = deck1,
             rv_sock = sendall s1 [0xab, 0xcd, 0xdc, 0xba, 4, 2, 0, 0, 0]\<rparr>)
   \<and> (shuffle_deck random_shuffle create_deck = rest @ [c4, c3, c2, c1]
      \<and> set (shuffle_deck random_shuffle create_deck) \<subseteq> set create_deck
      \<and> hand_total [c1, c2] > 21 \<longrightarrow>
      play_round random_shuffle s =
        Inr \<lparr>rv_player_hand = [c1, c2], rv_dealer_hand = [c3],
             rv_player_busted = True, rv_dealer_busted = False,
             rv_result = GAME_RESULT_LOSS, rv_deck = rest,
             rv_sock = s\<lparr>outbox := outbox s @
               [[0xab, 0xcd, 0xdc, 0xba, 4, 0, 0, word_of_int (fst c1), word_of_int (snd c1)],
                [0xab, 0xcd, 0xdc, 0xba, 4, 0, 0, word_of_int (fst c2), word_of_int (snd c2)],
                [0xab, 0xcd, 0xdc, 0xba, 4, 0, 0, word_of_int (fst c3), word_of_int (snd c3)],
                [0xab, 0xcd, 0xdc, 0xba, 4, 2, 0, 0, 0]]\<rparr>\<rparr>
      \<and> fst c1 = 1 \<and> fst c2 = 1)
   \<and> hand_total [(1, suit1), (1, suit2)] = 22
   \<and> GAME_RESULT_LOSS = 2"
proof -
  have fin: "end_round s' GAME_RESULT_LOSS = Inr (sendall s' [0xab, 0xcd, 0xdc, 0xba, 4, 2, 0, 0, 0])" for s'
    by (simp add: end_round_def result_payload GAME_RESULT_LOSS_def)
  have general: "initial_deal (shuffle_deck random_shuffle create_deck) s
      = Inr (player_hand, dealer_hand, dealer_hidden, deck1, s1)
    \<and> hand_total player_hand > 21 \<longrightarrow>
      play_round random_shuffle s =
        Inr \<lparr>rv_player_hand = player_hand, rv_dealer_hand = dealer_hand,
             rv_player_busted = True, rv_dealer_busted = False,
             rv_result = GAME_RESULT_LOSS, rv_deck = deck1,
             rv_sock = sendall s1 [0xab, 0xcd, 0xdc, 0xba, 4, 2, 0, 0, 0]\<rparr>"
    for player_hand dealer_hand dealer_hidden deck1 s1
    by (simp add: play_round_def Let_def decide_and_end_def who_won_def fin)
  have shuffled: "shuffle_deck random_shuffle create_deck = rest @ [c4, c3, c2, c1]
      \<and> set (shuffle_deck random_shuffle create_deck) \<subseteq> set create_deck
      \<and> hand_total [c1, c2] > 21 \<longrightarrow>
      play_round random_shuffle s =
        Inr \<lparr>rv_player_hand = [c1, c2], rv_dealer_hand = [c3],
             rv_player_busted = True, rv_dealer_busted = False,
             rv_result = GAME_RESULT_LOSS, rv_deck = rest,
             rv_sock = s\<lparr>outbox := outbox s @
               [[0xab, 0xcd, 0xdc, 0xba, 4, 0, 0, word_of_int (fst c1), word_of_int (snd c1)],
                [0xab, 0xcd, 0xdc, 0xba, 4, 0, 0, word_of_int (fst c2), word_of_int (snd c2)],
                [0xab, 0xcd, 0xdc, 0xba, 4, 0, 0, word_of_int (fst c3), word_of_int (snd c3)],
                [0xab, 0xcd, 0xdc, 0xba, 4, 2, 0, 0, 0]]\<rparr>\<rparr>
      \<and> fst c1 = 1 \<and> fst c2 = 1"
  proof
    assume a: "shuffle_deck random_shuffle create_deck = rest @ [c4, c3, c2, c1]
      \<and> set (shuffle_deck random_shuffle create_deck) \<subseteq> set create_deck
      \<and> hand_total [c1, c2] > 21"
    then have mem: "c1 \<in> set create_deck" "c2 \<in> set create_deck" "c3 \<in> set create_deck"
      by auto
    then have rng: "\<forall>c \<in> {c1, c2, c3}. 0 \<le> fst c \<and> fst c \<le> 255 \<and> 0 \<le> snd c \<and> snd c \<le> 255"
      using create_deck_card_range by fastforce
    have deal: "initial_deal (shuffle_deck random_shuffle create_deck) s =
       Inr ([c1, c2], [c3], c4, rest,
            s\<lparr>outbox := outbox s @
               [[0xab, 0xcd, 0xdc, 0xba, 4, 0, 0, word_of_int (fst c1), word_of_int (snd c1)],
                [0xab, 0xcd, 0xdc, 0xba, 4, 0, 0, word_of_int (fst c2), word_of_int (snd c2)],
                [0xab, 0xcd, 0xdc, 0xba, 4, 0, 0, word_of_int (fst c3), word_of_int (snd c3)]]\<rparr>)"
      using a initial_deal_snoc4 [OF rng, of rest c4 s] by simp
    have round: "play_round random_shuffle s =
        Inr \<lparr>rv_player_hand = [c1, c2], rv_dealer_hand = [c3],
             rv_player_busted = True, rv_dealer_busted = False,
             rv_result = GAME_RESULT_LOSS, rv_deck = rest,
             rv_sock = s\<lparr>outbox := outbox s @
               [[0xab, 0xcd, 0xdc, 0xba, 4, 0, 0, word_of_int (fst c1), word_of_int (snd c1)],
                [0xab, 0xcd, 0xdc, 0xba, 4, 0, 0, word_of_int (fst c2), word_of_int (snd c2)],
                [0xab, 0xcd, 0xdc, 0xba, 4, 0, 0, word_of_int (fst c3), word_of_int (snd c3)],
                [0xab, 0xcd, 0xdc, 0xba, 4, 2, 0, 0, 0]]\<rparr>\<rparr>"
      using a general [of "[c1, c2]" "[c3]" c4 rest] deal by (simp add: sendall_def)
    have v: "rank_value (fst c) \<le> 11 \<and> (rank_value (fst c) = 11 \<longrightarrow> fst c = 1)"
      if "c \<in> set create_deck" for c
      using create_deck_card_range [OF that] by (auto simp: rank_value_def)
    from a have "rank_value (fst c1) + rank_value (fst c2) > 21"
      by (simp add: hand_total_sum case_prod_beta)
    with v [OF mem(1)] v [OF mem(2)] have "fst c1 = 1 \<and> fst c2 = 1"
      by linarith
    with round show "play_round random_shuffle s =
        Inr \<lparr>rv_player_hand = [c1, c2], rv_dealer_hand = [c3],
             rv_player_busted = True, rv_dealer_busted = False,
             rv_result = GAME_RESULT_LOSS, rv_deck = rest,
             rv_sock = s\<lparr>outbox := outbox s @
               [[0xab, 0xcd, 0xdc, 0xba, 4, 0, 0, word_of_int (fst c1), word_of_int (snd c1)],
                [0xab, 0xcd, 0xdc, 0xba, 4, 0, 0, word_of_int (fst c2), word_of_int (snd c2)],
                [0xab, 0xcd, 0xdc, 0xba, 4, 0, 0, word_of_int (fst c3), word_of_int (snd c3)],
                [0xab, 0xcd, 0xdc, 0xba, 4, 2, 0, 0, 0]]\<rparr>\<rparr>
      \<and> fst c1 = 1 \<and> fst c2 = 1"
      by blast
  qed
  have aces: "hand_total [(1, suit1), (1, suit2)] = 22"
    by (simp add: hand_total_def rank_value_def)
  have code: "GAME_RESULT_LOSS = 2"
    by (simp add: GAME_RESULT_LOSS_def)
  show ?thesis
    by (intro conjI general shuffled aces code)
qed

theorem play_round_initial_bust_is_loss_witness:
  "play_round (\<lambda>deck. filter (\<lambda>c. fst c \<noteq> 1) deck @ filter (\<lambda>c. fst c = 1) deck)
     \<lparr>inbox = [], outbox = []\<rparr> =
     Inr \<lparr>rv_player_hand = [(1, 3), (1, 2)], rv_dealer_hand = [(1, 1)],
          rv_player_busted = True, rv_dealer_busted = False,
          rv_result = 2, rv_deck = filter (\<lambda>c. fst c \<noteq> 1) create_deck,
          rv_sock = \<lparr>inbox = [], outbox =
            [[0xab, 0xcd, 0xdc, 0xba, 4, 0, 0, 1, 3],
             [0xab, 0xcd, 0xdc, 0xba, 4, 0, 0, 1, 2],
             [0xab, 0xcd, 0xdc, 0xba, 4, 0, 0, 1, 1],
             [0xab, 0xcd, 0xdc, 0xba, 4, 2, 0, 0, 0]]\<rparr>\<rparr>
   \<and> hand_total [(1, 3), (1, 2)] = 22"
proof -
  let ?sh = "\<lambda>deck :: card list. filter (\<lambda>c. fst c \<noteq> 1) deck @ filter (\<lambda>c. fst c = 1) deck"
  have aces: "filter (\<lambda>c. fst c = 1) create_deck = [(1, 0), (1, 1), (1, 2), (1, 3)]"
    by (simp add: create_deck_def upto.simps)
  have deck: "shuffle_deck ?sh create_deck
                = filter (\<lambda>c. fst c \<noteq> 1) create_deck @ [(1, 0), (1, 1), (1, 2), (1, 3)]"
    by (simp add: shuffle_deck_def aces)
  have sub: "set (shuffle_deck ?sh create_deck) \<subseteq> set create_deck"
    by (auto simp: shuffle_deck_def)
  have tot: "hand_total [(1, 3), (1, 2)] = 22"
    by (simp add: hand_total_def rank_value_def)
  then have bust: "hand_total [(1, 3), (1, 2)] > 21"
    by simp
  from play_round_initial_bust_is_loss
         [where random_shuffle = ?sh and rest = "filter (\<lambda>c. fst c \<noteq> 1) create_deck"
            and ?c4.0 = "(1, 0)" and ?c3.0 = "(1, 1)" and ?c2.0 = "(1, 2)" and ?c1.0 = "(1, 3)"
            and s = "\<lparr>inbox = [], outbox = []\<rparr>"]
       deck sub bust
  have "play_round ?sh \<lparr>inbox = [], outbox = []\<rparr> =
     Inr \<lparr>rv_player_hand = [(1, 3), (1, 2)], rv_dealer_hand = [(1, 1)],
          rv_player_busted = True, rv_dealer_busted = False,
          rv_result = GAME_RESULT_LOSS, rv_deck = filter (\<lambda>c. fst c \<noteq> 1) create_deck,
          rv_sock = \<lparr>inbox = [], outbox =
            [[0xab, 0xcd, 0xdc, 0xba, 4, 0, 0, 1, 3],
             [0xab, 0xcd, 0xdc, 0xba, 4, 0, 0, 1, 2],
             [0xab, 0xcd, 0xdc, 0xba, 4, 0, 0, 1, 1],
             [0xab, 0xcd, 0xdc, 0xba, 4, 2, 0, 0, 0]]\<rparr>\<rparr>"
    by simp
  with tot show ?thesis
    by (simp add: GAME_RESULT_LOSS_def)
qed

end
